theory Spec2Isabelle
  imports Main
begin

section \<open>Vaultrunner.c: the argument forwarder\<close>

text \<open>
  The program is one function:
  \<^verbatim>\<open>
  int main(int argc, char *argv[]) {
      char command[1024] = "python3 main.py";
      for (int i = 1; i < argc; i++) {
          strcat(command, " ");
          strcat(command, argv[i]);
      }
      int ret = system(command);
      return ret;
  }
  \<close>
  The array \<open>command\<close> is a list of 1024 bytes, \<open>argv\<close> is the list of the argument
  strings (\<open>argc\<close> is its length, \<open>argv ! 0\<close> the program's own name), and a C string
  is the bytes before its terminating NUL. An access outside the array is undefined
  behaviour in C; the model stops there with an error value that names the index.
\<close>

subsection \<open>C strings in a fixed array\<close>

datatype error = OutOfBounds nat

definition NUL :: char where
  "NUL = CHR 0x00"

text \<open>The string an array holds: its bytes up to the first NUL.\<close>

definition c_str :: "char list \<Rightarrow> string" where
  "c_str buf = takeWhile (\<lambda>c. c \<noteq> NUL) buf"

text \<open>
  \<open>strlen\<close> scans for the first NUL; in an array without one it reads past the end.
\<close>

definition strlen :: "char list \<Rightarrow> error + nat" where
  "strlen buf =
     (if NUL \<in> set buf then Inr (length (c_str buf)) else Inl (OutOfBounds (length buf)))"

text \<open>One byte written at an index of the array.\<close>

definition store :: "char list \<Rightarrow> nat \<Rightarrow> char \<Rightarrow> error + char list" where
  "store buf i c = (if i < length buf then Inr (buf[i := c]) else Inl (OutOfBounds i))"

text \<open>
  The copying loop of \<open>strcat\<close>: the bytes of the source go to consecutive indices,
  then the terminating NUL. Nothing checks the indices against the size of the array.
\<close>

fun copy_from :: "char list \<Rightarrow> nat \<Rightarrow> string \<Rightarrow> error + char list" where
  "copy_from buf i [] = store buf i NUL"
| "copy_from buf i (c # cs) =
     (case store buf i c of
        Inl e \<Rightarrow> Inl e
      | Inr buf' \<Rightarrow> copy_from buf' (Suc i) cs)"

definition strcat :: "char list \<Rightarrow> string \<Rightarrow> error + char list" where
  "strcat dest src =
     (case strlen dest of
        Inl e \<Rightarrow> Inl e
      | Inr n \<Rightarrow> copy_from dest n src)"

subsection \<open>The program\<close>

text \<open>
  \<open>char command[1024] = "python3 main.py"\<close>: the bytes of the literal, the rest of the
  array zero.
\<close>

definition command_init :: "char list" where
  "command_init = ''python3 main.py'' @ replicate (1024 - length ''python3 main.py'') NUL"

text \<open>The \<open>for\<close> loop, from index \<open>i\<close> on.\<close>

function main_loop :: "nat \<Rightarrow> string list \<Rightarrow> char list \<Rightarrow> error + char list" where
  "main_loop i argv command =
     (if i < length argv then
        (case strcat command '' '' of
           Inl e \<Rightarrow> Inl e
         | Inr command1 \<Rightarrow>
             (case strcat command1 (argv ! i) of
                Inl e \<Rightarrow> Inl e
              | Inr command2 \<Rightarrow> main_loop (Suc i) argv command2))
      else Inr command)"
  by pat_completeness auto
termination
  by (relation "measure (\<lambda>(i, argv, command). length argv - i)") auto

text \<open>
  What a run does to its environment. The source has one such statement, the call of
  \<open>system\<close>; it has no statement that writes to a stream.
\<close>

datatype effect = System string | Stderr string

record outcome =
  ret :: int
  effects :: "effect list"

text \<open>
  \<open>main\<close>, with the C library's \<open>system\<close> as a parameter: the status it returns for a
  command string.
\<close>

definition main :: "(string \<Rightarrow> int) \<Rightarrow> string list \<Rightarrow> error + outcome" where
  "main system argv =
     (case main_loop 1 argv command_init of
        Inl e \<Rightarrow> Inl e
      | Inr command \<Rightarrow>
          Inr \<lparr>ret = system (c_str command), effects = [System (c_str command)]\<rparr>)"

text \<open>The string that \<open>command\<close> holds when the loop is left, which \<open>system\<close> receives.\<close>

definition built_command :: "string list \<Rightarrow> error + string" where
  "built_command argv =
     (case main_loop 1 argv command_init of
        Inl e \<Rightarrow> Inl e
      | Inr command \<Rightarrow> Inr (c_str command))"

subsection \<open>The environment: \<open>system\<close> and exit statuses on a POSIX system\<close>

text \<open>
  \<open>system(command)\<close> runs \<open>sh -c command\<close> and waits for it. When the shell
  terminates normally, \<open>system\<close> returns its termination status in the format of
  \<open>waitpid\<close>, and the shell's exit code is that of the command it ran, or 127 when it
  could not find the command. In that format, on Linux and the BSDs, the exit code sits
  in bits 8 to 15 of the status (\<open>WEXITSTATUS(s) = (s >> 8) & 0xff\<close>). Of the value
  returned from \<open>main\<close> the parent of the program sees the low 8 bits
  (\<open>status & 0377\<close>). None of this is code of the repository; it is what the library
  call of line 17 and the \<open>return\<close> of line 18 mean where \<open>python3\<close> is started
  through \<open>sh\<close>. Only the normal termination of the shell is modelled.
\<close>

datatype child_end = Exited nat

fun wait_status :: "child_end \<Rightarrow> int" where
  "wait_status (Exited n) = 256 * int n"

definition posix_system :: "(string \<Rightarrow> child_end) \<Rightarrow> string \<Rightarrow> int" where
  "posix_system child command = wait_status (child command)"

definition exit_status :: "int \<Rightarrow> int" where
  "exit_status r = r mod 256"

subsection \<open>The specification's words\<close>

text \<open>
  The arguments, each after one space; the command of a run with the arguments
  \<open>drop 1 argv\<close>; and the Invocation of the specification, a sequence of strings.
\<close>

definition joined :: "string list \<Rightarrow> string" where
  "joined as = concat (map (\<lambda>a. '' '' @ a) as)"

definition command_line :: "string list \<Rightarrow> string" where
  "command_line argv = ''python3 main.py'' @ joined (drop 1 argv)"

definition invocation :: "string list \<Rightarrow> string list" where
  "invocation A = [''python3'', ''main.py''] @ A"

text \<open>
  The body of the loop, by recursion over the arguments that remain: \<open>main_loop\<close> from
  index \<open>i\<close> is this function on \<open>drop i argv\<close> (lemma \<open>main_loop_drop\<close>).
\<close>

fun append_args :: "char list \<Rightarrow> string list \<Rightarrow> error + char list" where
  "append_args command [] = Inr command"
| "append_args command (a # as) =
     (case strcat command '' '' of
        Inl e \<Rightarrow> Inl e
      | Inr command1 \<Rightarrow>
          (case strcat command1 a of
             Inl e \<Rightarrow> Inl e
           | Inr command2 \<Rightarrow> append_args command2 as))"

declare main_loop.simps [simp del]

section \<open>Strings in the array\<close>

lemma c_str_terminated: "NUL \<notin> set s \<Longrightarrow> c_str (s @ NUL # rest) = s"
  by (auto simp: c_str_def takeWhile_tail)

lemma c_str_no_NUL: "NUL \<notin> set (c_str buf)"
  by (auto simp: c_str_def dest: set_takeWhileD)

lemma take_strlen: "take (length (c_str buf)) buf = c_str buf"
  unfolding c_str_def by (rule takeWhile_eq_take [symmetric])

lemma length_c_str_less: "NUL \<in> set buf \<Longrightarrow> length (c_str buf) < length buf"
proof -
  assume a: "NUL \<in> set buf"
  have "length (c_str buf) \<le> length buf"
    by (simp add: c_str_def length_takeWhile_le)
  moreover have "length (c_str buf) \<noteq> length buf"
  proof
    assume "length (c_str buf) = length buf"
    then have "c_str buf = buf" using take_strlen [of buf] by simp
    with a c_str_no_NUL [of buf] show False by simp
  qed
  ultimately show ?thesis by simp
qed

lemma copy_from_fits:
  "i + length src < length buf \<Longrightarrow>
   copy_from buf i src = Inr (take i buf @ src @ NUL # drop (Suc (i + length src)) buf)"
proof (induction src arbitrary: buf i)
  case Nil
  then show ?case by (simp add: store_def upd_conv_take_nth_drop)
next
  case (Cons c cs)
  then show ?case 
    by (simp add: store_def take_Suc_conv_app_nth)
qed

lemma copy_from_overflow:
  "i \<le> length buf \<Longrightarrow> length buf \<le> i + length src \<Longrightarrow>
   copy_from buf i src = Inl (OutOfBounds (length buf))"
proof (induction src arbitrary: buf i)
  case Nil
  then show ?case by (simp add: store_def)
next
  case (Cons c cs)
  then show ?case 
    by (cases "i = length buf") (simp_all add: store_def)
qed


lemma strcat_fits:
  assumes "NUL \<in> set buf" and "NUL \<notin> set src"
    and "length (c_str buf) + length src < length buf"
  shows "\<exists>buf'. strcat buf src = Inr buf' \<and> c_str buf' = c_str buf @ src
           \<and> length buf' = length buf \<and> NUL \<in> set buf'"
proof -
  let ?n = "length (c_str buf)"
  let ?buf' = "take ?n buf @ src @ NUL # drop (Suc (?n + length src)) buf"
  have "strcat buf src = Inr ?buf'"
    using assms by (simp add: strcat_def strlen_def copy_from_fits)
  moreover have "c_str ?buf' = c_str buf @ src"
    using c_str_terminated [of "c_str buf @ src"] assms(2) c_str_no_NUL [of buf]
    by (simp add: take_strlen)
  moreover have "length ?buf' = length buf"
    using assms(3) by simp
  ultimately show ?thesis by auto
qed

lemma strcat_overflow:
  assumes "NUL \<in> set buf" and "length buf \<le> length (c_str buf) + length src"
  shows "strcat buf src = Inl (OutOfBounds (length buf))"
  using assms length_c_str_less [of buf]
  by (simp add: strcat_def strlen_def copy_from_overflow)

section \<open>The loop\<close>

lemma main_loop_drop: "main_loop i argv command = append_args command (drop i argv)"
proof (induction i argv command rule: main_loop.induct)
  case (1 i argv command)
  show ?case
  proof (cases "i < length argv")
    case True
    then have d: "drop i argv = argv ! i # drop (Suc i) argv"
      by (simp add: Cons_nth_drop_Suc)
    show ?thesis
      using True "1.IH" by (subst main_loop.simps) (simp add: d split: sum.splits)
  next
    case False
    then show ?thesis by (subst main_loop.simps) simp
  qed
qed

lemma joined_Nil: "joined [] = []"
  by (simp add: joined_def)

lemma joined_Cons: "joined (a # as) = '' '' @ a @ joined as"
  by (simp add: joined_def)

lemma space_not_NUL: "NUL \<notin> set '' ''"
  by (simp add: NUL_def)

lemma append_args_fits:
  assumes "NUL \<in> set buf" and "\<forall>a\<in>set as. NUL \<notin> set a"
    and "length (c_str buf) + length (joined as) < length buf"
  shows "\<exists>buf'. append_args buf as = Inr buf' \<and> c_str buf' = c_str buf @ joined as
           \<and> length buf' = length buf \<and> NUL \<in> set buf'"
  using assms
proof (induction as arbitrary: buf)
  case Nil
  then show ?case by (simp add: joined_Nil)
next
  case (Cons a as)
  from Cons.prems have len: "length (c_str buf) + 1 + length a + length (joined as) < length buf"
    by (simp add: joined_Cons)
  obtain b1 where b1: "strcat buf '' '' = Inr b1" "c_str b1 = c_str buf @ '' ''"
      "length b1 = length buf" "NUL \<in> set b1"
    using strcat_fits [OF Cons.prems(1) space_not_NUL] len by auto
  obtain b2 where b2: "strcat b1 a = Inr b2" "c_str b2 = c_str b1 @ a"
      "length b2 = length buf" "NUL \<in> set b2"
    using strcat_fits [OF b1(4), of a] Cons.prems(2) len b1(2,3) by auto
  have "\<exists>buf'. append_args b2 as = Inr buf' \<and> c_str buf' = c_str b2 @ joined as
           \<and> length buf' = length b2 \<and> NUL \<in> set buf'"
    using Cons.prems(2) len b1(2) b2(2,3,4) by (intro Cons.IH) auto
  then show ?case
    using b1 b2 by (auto simp: joined_Cons)
qed

lemma append_args_overflow:
  assumes "NUL \<in> set buf" and "\<forall>a\<in>set as. NUL \<notin> set a"
    and "length buf \<le> length (c_str buf) + length (joined as)"
  shows "append_args buf as = Inl (OutOfBounds (length buf))"
  using assms
proof (induction as arbitrary: buf)
  case Nil
  then show ?case using length_c_str_less [of buf] by (simp add: joined_Nil)
next
  case (Cons a as)
  show ?case
  proof (cases "length (c_str buf) + 1 < length buf")
    case False
    then have "strcat buf '' '' = Inl (OutOfBounds (length buf))"
      using strcat_overflow [OF Cons.prems(1), of "'' ''"] by simp
    then show ?thesis by simp
  next
    case True
    then obtain b1 where b1: "strcat buf '' '' = Inr b1" "c_str b1 = c_str buf @ '' ''"
      "length b1 = length buf" "NUL \<in> set b1"
      using strcat_fits [OF Cons.prems(1) space_not_NUL] by auto
    show ?thesis
    proof (cases "length (c_str b1) + length a < length buf")
      case False
      then have "strcat b1 a = Inl (OutOfBounds (length buf))"
        using strcat_overflow [OF b1(4), of a] b1(3) by simp
      then show ?thesis using b1(1) by simp
    next
      case fits: True
      then obtain b2 where b2: "strcat b1 a = Inr b2" "c_str b2 = c_str b1 @ a"
        "length b2 = length buf" "NUL \<in> set b2"
        using strcat_fits [OF b1(4), of a] Cons.prems(2) b1(3) by auto
      have "append_args b2 as = Inl (OutOfBounds (length b2))"
        using Cons.prems(2,3) b1(2) b2(2,3,4) by (intro Cons.IH) (auto simp: joined_Cons)
      then show ?thesis using b1(1) b2(1,3) by simp
    qed
  qed
qed

lemma NUL_in_command_init: "NUL \<in> set command_init"
  by (simp add: command_init_def)

lemma length_command_init: "length command_init = 1024"
  by (simp add: command_init_def)

lemma c_str_command_init: "c_str command_init = ''python3 main.py''"
  unfolding command_init_def c_str_def NUL_def by simp

lemma main_loop_fits:
  assumes "\<forall>a\<in>set (drop 1 argv). NUL \<notin> set a" and "length (command_line argv) < 1024"
  shows "\<exists>command. main_loop 1 argv command_init = Inr command
           \<and> c_str command = command_line argv \<and> length command = 1024"
  using append_args_fits [OF NUL_in_command_init assms(1)] assms(2)
  by (auto simp: main_loop_drop c_str_command_init length_command_init command_line_def)

lemma main_loop_overflow:
  assumes "\<forall>a\<in>set (drop 1 argv). NUL \<notin> set a" and "1024 \<le> length (command_line argv)"
  shows "main_loop 1 argv command_init = Inl (OutOfBounds 1024)"
  using append_args_overflow [OF NUL_in_command_init assms(1)] assms(2)
  by (simp add: main_loop_drop c_str_command_init length_command_init command_line_def)

lemma built_command_fits:
  assumes "\<forall>a\<in>set (drop 1 argv). NUL \<notin> set a" and "length (command_line argv) < 1024"
  shows "built_command argv = Inr (command_line argv)"
  using main_loop_fits [OF assms] by (auto simp: built_command_def)

lemma main_fits:
  assumes "\<forall>a\<in>set (drop 1 argv). NUL \<notin> set a" and "length (command_line argv) < 1024"
  shows "main system argv =
           Inr \<lparr>ret = system (command_line argv), effects = [System (command_line argv)]\<rparr>"
  using main_loop_fits [OF assms] by (auto simp: main_def)

lemma main_overflow:
  assumes "\<forall>a\<in>set (drop 1 argv). NUL \<notin> set a" and "1024 \<le> length (command_line argv)"
  shows "main system argv = Inl (OutOfBounds 1024)"
  using main_loop_overflow [OF assms] by (simp add: main_def)

lemma main_no_arguments:
  assumes "length argv \<le> 1"
  shows "main system argv
           = Inr \<lparr>ret = system ''python3 main.py'', effects = [System ''python3 main.py'']\<rparr>"
proof -
  have "drop 1 argv = []" using assms by simp
  then have "main_loop 1 argv command_init = Inr command_init"
    by (simp add: main_loop_drop)
  then show ?thesis by (simp add: main_def c_str_command_init)
qed

section \<open>The claims\<close>

text \<open>
  In what follows an argument vector is well formed when no argument has a NUL inside
  (each is a C string: \<open>list_all (\<lambda>a. NUL \<notin> set a) (drop 1 argv)\<close>), and it
  fits when the command with its terminating NUL takes at most 1024 bytes:
  \<open>length (command_line argv) < 1024\<close>.
\<close>

subsection \<open>C1: how the arguments reach the child\<close>

text \<open>
  C1, as the code has it: for every well-formed argument vector that fits, the run has one
  effect, a call of \<open>system\<close> with one string, which is \<open>python3 main.py\<close> followed
  by every argument after a single space, unquoted and unescaped. The arguments are
  joined for the shell, not handed over one by one.
\<close>

theorem arguments_joined_for_the_shell:
  assumes "list_all (\<lambda>a. NUL \<notin> set a) (drop 1 argv)"
    and "length (command_line argv) < 1024"
  shows "\<exists>r. main system argv = Inr r
           \<and> effects r
               = [System (''python3 main.py'' @ concat (map (\<lambda>a. '' '' @ a) (drop 1 argv)))]"
  using main_fits [of argv system] assms by (simp add: command_line_def joined_def list_all_iff)

theorem arguments_joined_for_the_shell_witness:
  "(list_all (\<lambda>a. NUL \<notin> set a) (drop 1 [''Vaultrunner'', ''--name'', ''a b'', ''--opt=x;y'']))
   \<and> length (command_line [''Vaultrunner'', ''--name'', ''a b'', ''--opt=x;y'']) < 1024
   \<and> (\<exists>r. main (\<lambda>command. 0) [''Vaultrunner'', ''--name'', ''a b'', ''--opt=x;y''] = Inr r
           \<and> effects r = [System ''python3 main.py --name a b --opt=x;y''])"
proof -
  have h1: "list_all (\<lambda>a. NUL \<notin> set a) (drop 1 [''Vaultrunner'', ''--name'', ''a b'', ''--opt=x;y''])"
    by (simp add: NUL_def)
  have h2: "length (command_line [''Vaultrunner'', ''--name'', ''a b'', ''--opt=x;y'']) < 1024"
    by (simp add: command_line_def joined_def)
  show ?thesis
    using arguments_joined_for_the_shell [OF h1 h2, of "\<lambda>command. 0"] h1 h2 by simp
qed

text \<open>
  C1 as stated fails on the specification's own example: the run with the three arguments
  \<open>--name\<close>, \<open>a b\<close>, \<open>--opt=x;y\<close> and the run with the four arguments \<open>--name\<close>,
  \<open>a\<close>, \<open>b\<close>, \<open>--opt=x;y\<close> do the same thing, one call of \<open>system\<close> with the same
  string, so the argument \<open>a b\<close> does not arrive as one argument of its own, and the
  \<open>;\<close> reaches the shell as it is.
\<close>

theorem discrete_arguments_counterexample:
  "main (\<lambda>command. 0) [''Vaultrunner'', ''--name'', ''a b'', ''--opt=x;y'']
     = Inr \<lparr>ret = 0, effects = [System ''python3 main.py --name a b --opt=x;y'']\<rparr>
   \<and> main (\<lambda>command. 0) [''Vaultrunner'', ''--name'', ''a'', ''b'', ''--opt=x;y'']
     = Inr \<lparr>ret = 0, effects = [System ''python3 main.py --name a b --opt=x;y'']\<rparr>"
proof -
  have a: "main (\<lambda>command. 0) [''Vaultrunner'', ''--name'', ''a b'', ''--opt=x;y'']
     = Inr \<lparr>ret = 0, effects = [System ''python3 main.py --name a b --opt=x;y'']\<rparr>"
    by (subst main_fits) (simp_all add: NUL_def command_line_def joined_def)
  have b: "main (\<lambda>command. 0) [''Vaultrunner'', ''--name'', ''a'', ''b'', ''--opt=x;y'']
     = Inr \<lparr>ret = 0, effects = [System ''python3 main.py --name a b --opt=x;y'']\<rparr>"
    by (subst main_fits) (simp_all add: NUL_def command_line_def joined_def)
  show ?thesis using a b by simp
qed

subsection \<open>C2: the exit code of the child\<close>

text \<open>
  C2 at the child's exit code 2: \<open>system\<close> returns the wait status 512, \<open>main\<close> returns
  512, and the low 8 bits of 512, the exit status of the program, are 0 and not 2.
\<close>

theorem exit_code_of_child_lost:
  "main (posix_system (\<lambda>command. Exited 2)) [''Vaultrunner'']
     = Inr \<lparr>ret = 512, effects = [System ''python3 main.py'']\<rparr>
   \<and> exit_status 512 = 0"
  by (simp add: main_no_arguments posix_system_def exit_status_def)

subsection \<open>C3: the command that is built\<close>

text \<open>
  C3, as the code has it: for every well-formed argument vector that fits (the one
  without arguments too), the command built in the array is the one string
  \<open>python3 main.py\<close> followed by the arguments in the order they were given, each after
  a single space; none is dropped, moved or merged with an equal one.
\<close>

theorem built_command_in_order:
  assumes "list_all (\<lambda>a. NUL \<notin> set a) (drop 1 argv)"
    and "length (command_line argv) < 1024"
  shows "built_command argv =
           Inr (''python3 main.py'' @ concat (map (\<lambda>a. '' '' @ a) (drop 1 argv)))"
  using built_command_fits [of argv] assms by (simp add: command_line_def joined_def list_all_iff)

theorem built_command_in_order_witness:
  "(list_all (\<lambda>a. NUL \<notin> set a) (drop 1 [''Vaultrunner'', ''build'', ''--verbose'']))
   \<and> length (command_line [''Vaultrunner'', ''build'', ''--verbose'']) < 1024
   \<and> built_command [''Vaultrunner'', ''build'', ''--verbose'']
       = Inr ''python3 main.py build --verbose''"
proof -
  have h1: "list_all (\<lambda>a. NUL \<notin> set a) (drop 1 [''Vaultrunner'', ''build'', ''--verbose''])"
    by (simp add: NUL_def)
  have h2: "length (command_line [''Vaultrunner'', ''build'', ''--verbose'']) < 1024"
    by (simp add: command_line_def joined_def)
  show ?thesis
    using built_command_in_order [OF h1 h2] h1 h2 by simp
qed

text \<open>
  C3 as stated fails twice. What is built is a string and not the sequence of the
  specification: two argument lists with different Invocations give the same command.
  And not every argument list gets a command: one argument of 1100 bytes ends the
  construction at a write outside the array.
\<close>

theorem invocation_counterexample:
  "built_command [''Vaultrunner'', ''x y'', ''z''] = built_command [''Vaultrunner'', ''x'', ''y z'']
   \<and> invocation [''x y'', ''z''] \<noteq> invocation [''x'', ''y z'']
   \<and> built_command [''Vaultrunner'', replicate 1100 CHR ''x''] = Inl (OutOfBounds 1024)"
proof -
  have a: "built_command [''Vaultrunner'', ''x y'', ''z''] = Inr ''python3 main.py x y z''"
    by (subst built_command_fits) (simp_all add: NUL_def command_line_def joined_def)
  have b: "built_command [''Vaultrunner'', ''x'', ''y z''] = Inr ''python3 main.py x y z''"
    by (subst built_command_fits) (simp_all add: NUL_def command_line_def joined_def)
  have c: "built_command [''Vaultrunner'', replicate 1100 CHR ''x''] = Inl (OutOfBounds 1024)"
    unfolding built_command_def
    by (subst main_loop_overflow) (simp_all add: NUL_def command_line_def joined_def)
  show ?thesis using a b c by (simp add: invocation_def)
qed

subsection \<open>C4: the bounds of the array\<close>

text \<open>
  C4 at one argument of 1008 bytes: the command takes 15 + 1 + 1008 bytes and its
  terminating NUL is written at index 1024 of the array of 1024 bytes. Nothing is
  truncated; the write is outside the array.
\<close>

theorem strcat_writes_past_command:
  "main_loop 1 [''Vaultrunner'', replicate 1008 CHR ''A''] command_init = Inl (OutOfBounds 1024)
   \<and> length command_init = 1024"
proof -
  have "main_loop 1 [''Vaultrunner'', replicate 1008 CHR ''A''] command_init
          = Inl (OutOfBounds 1024)"
    by (rule main_loop_overflow) (simp_all add: NUL_def command_line_def joined_def)
  then show ?thesis by (simp only: length_command_init simp_thms)
qed

subsection \<open>C5: launch failure\<close>

text \<open>
  C5 when \<open>python3\<close> cannot be found: the shell ends with the exit code 127,
  \<open>system\<close> returns the wait status 32512, \<open>main\<close> returns 32512 as it is, and the
  low 8 bits of 32512, the exit status of the program, are 0: the run reports success
  where the claim asks for a sentinel other than 0.
\<close>

theorem missing_interpreter_exits_zero:
  "\<exists>r. main (posix_system (\<lambda>command. Exited 127)) [''Vaultrunner''] = Inr r
     \<and> ret r = 32512 \<and> exit_status (ret r) = 0"
  by (simp add: main_no_arguments posix_system_def exit_status_def)

subsection \<open>C6: no arguments\<close>

text \<open>
  C6: without arguments the command is exactly \<open>python3 main.py\<close>, and when the child
  run by that command exits with 0 the program returns 0 and its exit status is 0.
\<close>

theorem no_arguments:
  assumes "length argv \<le> 1" and "child ''python3 main.py'' = Exited 0"
  shows "built_command argv = Inr ''python3 main.py''
         \<and> (\<exists>r. main (posix_system child) argv = Inr r
                \<and> effects r = [System ''python3 main.py'']
                \<and> ret r = 0 \<and> exit_status (ret r) = 0)"
proof -
  have "drop 1 argv = []" using assms(1) by simp
  then have "main_loop 1 argv command_init = Inr command_init"
    by (simp add: main_loop_drop)
  then have "built_command argv = Inr ''python3 main.py''"
    by (simp add: built_command_def c_str_command_init)
  then show ?thesis
    using main_no_arguments [OF assms(1), of "posix_system child"] assms(2)
    by (simp add: posix_system_def exit_status_def)
qed

theorem no_arguments_witness:
  "length [''Vaultrunner''] \<le> 1 \<and> (\<lambda>command. Exited 0) ''python3 main.py'' = Exited 0
   \<and> built_command [''Vaultrunner''] = Inr ''python3 main.py''
   \<and> (\<exists>r. main (posix_system (\<lambda>command. Exited 0)) [''Vaultrunner''] = Inr r
          \<and> effects r = [System ''python3 main.py'']
          \<and> ret r = 0 \<and> exit_status (ret r) = 0)"
  using no_arguments [of "[''Vaultrunner'']" "\<lambda>command. Exited 0"] by simp

subsection \<open>C7: two runs\<close>

text \<open>
  C7: two runs with the same arguments (whatever name the program was started under)
  and the same \<open>system\<close>, a function of the command, build the same command and end
  the same way, with the same value returned.
\<close>

theorem two_runs_agree:
  assumes "drop 1 argv = drop 1 argv'"
  shows "built_command argv = built_command argv' \<and> main system argv = main system argv'"
  using assms by (simp add: built_command_def main_def main_loop_drop)

theorem two_runs_agree_witness:
  "drop 1 [''./Vaultrunner'', ''build''] = drop 1 [''Vaultrunner'', ''build'']
   \<and> built_command [''./Vaultrunner'', ''build''] = built_command [''Vaultrunner'', ''build'']
   \<and> main (\<lambda>command. 0) [''./Vaultrunner'', ''build'']
       = main (\<lambda>command. 0) [''Vaultrunner'', ''build'']"
  using two_runs_agree [of "[''./Vaultrunner'', ''build'']" "[''Vaultrunner'', ''build'']"
      "\<lambda>command. 0"]
  by simp

subsection \<open>C8: one child\<close>

text \<open>
  C8 at two arguments of 600 bytes each: the second \<open>strcat\<close> of the second round
  writes at index 1024, outside the array, before \<open>system\<close> is reached. From there
  on C leaves the behaviour undefined, and the run of the model ends with the error,
  without a call of \<open>system\<close>.
\<close>

theorem no_child_after_overflow:
  "main (\<lambda>command. 0) [''Vaultrunner'', replicate 600 CHR ''A'', replicate 600 CHR ''B'']
     = Inl (OutOfBounds 1024)"
  by (rule main_overflow) (simp_all add: NUL_def command_line_def joined_def)

subsection \<open>C9: the command does not determine the arguments\<close>

text \<open>
  C9: the one argument \<open>a b\<close> and the two arguments \<open>a\<close>, \<open>b\<close> are different
  argument lists with the same command, \<open>python3 main.py a b\<close>.
\<close>

theorem command_not_injective:
  "[''a b''] \<noteq> [''a'', ''b'']
   \<and> built_command (p # [''a b'']) = Inr ''python3 main.py a b''
   \<and> built_command (p # [''a'', ''b'']) = Inr ''python3 main.py a b''"
proof -
  have a: "built_command (p # [''a b'']) = Inr ''python3 main.py a b''"
    by (subst built_command_fits) (simp_all add: NUL_def command_line_def joined_def)
  have b: "built_command (p # [''a'', ''b'']) = Inr ''python3 main.py a b''"
    by (subst built_command_fits) (simp_all add: NUL_def command_line_def joined_def)
  show ?thesis using a b by simp
qed

subsection \<open>C10: the value returned\<close>

text \<open>
  C10: when \<open>main\<close> returns, it has called \<open>system\<close> once, with the command it built,
  and the value it returns is the value that call returned, as it is.
\<close>

theorem raw_status_returned:
  assumes "main system argv = Inr r"
  shows "\<exists>command. built_command argv = Inr command
           \<and> effects r = [System command] \<and> ret r = system command"
  using assms by (auto simp: main_def built_command_def split: sum.splits)

theorem raw_status_returned_witness:
  "main (\<lambda>command. 512) [''Vaultrunner'']
     = Inr \<lparr>ret = 512, effects = [System ''python3 main.py'']\<rparr>
   \<and> (\<exists>command. built_command [''Vaultrunner''] = Inr command
          \<and> effects \<lparr>ret = 512, effects = [System ''python3 main.py'']\<rparr> = [System command]
          \<and> ret \<lparr>ret = 512, effects = [System ''python3 main.py'']\<rparr>
              = (\<lambda>command. 512) command)"
proof -
  have h: "main (\<lambda>command. 512) [''Vaultrunner'']
     = Inr \<lparr>ret = 512, effects = [System ''python3 main.py'']\<rparr>"
    by (simp add: main_no_arguments)
  show ?thesis
    using raw_status_returned [OF h] h by simp
qed

end
